theory Spec2Isabelle
  imports Main
begin

section \<open>Values that cross the process boundary\<close>

text \<open>
  The API server (api/src/server.ts) keeps its jobs in one in-process table, pushes JSON
  messages to WebSocket clients and answers HTTP requests. Strings are byte lists, JavaScript
  numbers that count prompts are integers, and a \<open>Date\<close> is the clock reading it was
  created from.
\<close>

datatype status = Pending | Running | Completed | Failed

text \<open>
  Modelled from the spec: the element type of \<open>results\<close>. It is declared by the worker
  package, whose source is not part of the API server; the server itself reads only the
  \<open>success\<close> member (line 147).
\<close>

record unit_result =
  success :: bool
  artifactRef :: "string option"
  errorMessage :: "string option"
  timestamp :: nat

text \<open>The \<open>Job\<close> interface, lines 10-20. Optional members are options.\<close>

record job =
  job_id :: string
  status :: status
  progress :: int
  total_job :: int
  currentTask :: string
  results :: "unit_result list"
  createdAt :: nat
  completedAt :: "nat option"
  error :: "string option"

text \<open>
  A value handed to \<open>JSON.stringify\<close>. An object is the list of its members in the order
  of the object literal; a member may hold \<open>undefined\<close>.
\<close>

datatype jsval =
    JUndefined
  | JString string
  | JNumber int
  | JDate nat
  | JNull
  | JResults "unit_result list"
  | JArray "jsval list"
  | JObject "(string \<times> jsval) list"

text \<open>
  \<open>JSON.stringify\<close> leaves out every member whose value is \<open>undefined\<close> and writes
  \<open>null\<close> for an \<open>undefined\<close> array element.
\<close>

fun stringify :: "jsval \<Rightarrow> jsval" where
  "stringify (JObject kvs) =
     JObject (map (\<lambda>kv. (fst kv, stringify (snd kv)))
                  (filter (\<lambda>kv. snd kv \<noteq> JUndefined) kvs))"
| "stringify (JArray vs) =
     JArray (map (\<lambda>v. if v = JUndefined then JNull else stringify v) vs)"
| "stringify v = v"

fun status_str :: "status \<Rightarrow> string" where
  "status_str Pending = ''pending''"
| "status_str Running = ''running''"
| "status_str Completed = ''completed''"
| "status_str Failed = ''failed''"

fun opt_date :: "nat option \<Rightarrow> jsval" where
  "opt_date None = JUndefined"
| "opt_date (Some t) = JDate t"

fun opt_string :: "string option \<Rightarrow> jsval" where
  "opt_string None = JUndefined"
| "opt_string (Some s) = JString s"

text \<open>Member names of an object, and member lookup.\<close>

fun keys_of :: "jsval \<Rightarrow> string list" where
  "keys_of (JObject kvs) = map fst kvs"
| "keys_of v = []"

fun member :: "jsval \<Rightarrow> string \<Rightarrow> jsval" where
  "member (JObject kvs) k = (case map_of kvs k of None \<Rightarrow> JUndefined | Some v \<Rightarrow> v)"
| "member v k = JUndefined"

text \<open>Decimal rendering of a number inside a template string.\<close>

fun show_nat :: "nat \<Rightarrow> string" where
  "show_nat n =
     (if n < 10 then [''0123456789'' ! n]
      else show_nat (n div 10) @ [''0123456789'' ! (n mod 10)])"

definition show_int :: "int \<Rightarrow> string" where
  "show_int i = (if i < 0 then ''-'' @ show_nat (nat (- i)) else show_nat (nat i))"

text \<open>A thrown value: an \<open>Error\<close> object with its message, or anything else.\<close>

datatype thrown = ErrorObj string | NonError

text \<open>\<open>error instanceof Error ? error.message : 'Unknown error'\<close> (lines 172, 179, 246, 301).\<close>

fun error_message :: "thrown \<Rightarrow> string" where
  "error_message (ErrorObj m) = m"
| "error_message NonError = ''Unknown error''"

section \<open>The job manager\<close>

datatype ready_state = CONNECTING | OPEN | CLOSING | CLOSED

record client =
  client_id :: nat
  readyState :: ready_state

text \<open>An armed \<open>setTimeout\<close> whose callback removes a directory.\<close>

record timer =
  armed_at :: nat
  delay_ms :: nat
  target_dir :: string

text \<open>
  Everything the server mutates: the \<open>jobs\<close> map of the \<open>JobManager\<close>, the client set of
  the WebSocket server, the messages handed to \<open>client.send\<close> so far (with the receiving
  client), the timers armed so far, and the clock that \<open>new Date()\<close> reads.
\<close>

record world =
  jobs :: "string \<rightharpoonup> job"
  clients :: "client list"
  sent :: "(nat \<times> jsval) list"
  timers :: "timer list"
  clock :: nat

text \<open>\<open>broadcast\<close>, lines 184-191: one \<open>send\<close> per client whose socket is open.\<close>

definition broadcast :: "jsval \<Rightarrow> world \<Rightarrow> world" where
  "broadcast data w =
     (let message = stringify data
      in w\<lparr>sent := sent w @
               map (\<lambda>c. (client_id c, message))
                   (filter (\<lambda>c. readyState c = OPEN) (clients w))\<rparr>)"

text \<open>\<open>createJob\<close>, lines 30-44. The identifier comes from \<open>uuidv4()\<close>.\<close>

definition createJob :: "string \<Rightarrow> world \<Rightarrow> world" where
  "createJob new_id w =
     w\<lparr>jobs := (jobs w)(new_id \<mapsto>
         \<lparr>job_id = new_id, status = Pending, progress = 0, total_job = 0,
          currentTask = '''', results = [], createdAt = clock w,
          completedAt = None, error = None\<rparr>)\<rparr>"

definition getJob :: "string \<Rightarrow> world \<Rightarrow> job option" where
  "getJob i w = jobs w i"

text \<open>
  A \<open>Partial<Job>\<close> object literal: the members it sets, in order. \<open>Object.assign\<close>
  copies them one after the other.
\<close>

datatype field_update =
    Set_id string
  | Set_status status
  | Set_progress int
  | Set_total int
  | Set_currentTask string
  | Set_results "unit_result list"
  | Set_createdAt nat
  | Set_completedAt nat
  | Set_error string

fun assign_field :: "field_update \<Rightarrow> job \<Rightarrow> job" where
  "assign_field (Set_id v) j = j\<lparr>job_id := v\<rparr>"
| "assign_field (Set_status v) j = j\<lparr>status := v\<rparr>"
| "assign_field (Set_progress v) j = j\<lparr>progress := v\<rparr>"
| "assign_field (Set_total v) j = j\<lparr>total_job := v\<rparr>"
| "assign_field (Set_currentTask v) j = j\<lparr>currentTask := v\<rparr>"
| "assign_field (Set_results v) j = j\<lparr>results := v\<rparr>"
| "assign_field (Set_createdAt v) j = j\<lparr>createdAt := v\<rparr>"
| "assign_field (Set_completedAt v) j = j\<lparr>completedAt := Some v\<rparr>"
| "assign_field (Set_error v) j = j\<lparr>error := Some v\<rparr>"

definition object_assign :: "job \<Rightarrow> field_update list \<Rightarrow> job" where
  "object_assign j updates = fold assign_field updates j"

text \<open>The object literal of lines 58-69.\<close>

definition job_update_event :: "job \<Rightarrow> jsval" where
  "job_update_event j =
     JObject [(''type'', JString ''job_update''),
              (''job'', JObject [(''id'', JString (job_id j)),
                                 (''status'', JString (status_str (status j))),
                                 (''progress'', JNumber (progress j)),
                                 (''total'', JNumber (total_job j)),
                                 (''currentTask'', JString (currentTask j)),
                                 (''completedAt'', opt_date (completedAt j)),
                                 (''error'', opt_string (error j))])]"

text \<open>\<open>updateJob\<close>, lines 50-70.\<close>

definition updateJob :: "string \<Rightarrow> field_update list \<Rightarrow> world \<Rightarrow> world" where
  "updateJob i updates w =
     (case jobs w i of
        None \<Rightarrow> w
      | Some j \<Rightarrow>
          (let j' = object_assign j updates
           in broadcast (job_update_event j') (w\<lparr>jobs := (jobs w)(i \<mapsto> j')\<rparr>)))"

text \<open>The \<open>connection\<close> handler, lines 311-322: the new client alone gets \<open>connected\<close>.\<close>

definition on_connection :: "client \<Rightarrow> world \<Rightarrow> world" where
  "on_connection c w =
     w\<lparr>clients := clients w @ [c],
       sent := sent w @
         [(client_id c,
           stringify (JObject [(''type'', JString ''connected''),
                               (''message'', JString ''WebSocket connection established'')]))]\<rparr>"

section \<open>Collaborators of a run\<close>

text \<open>\<open>String.prototype.endsWith\<close>.\<close>

definition endsWith :: "string \<Rightarrow> string \<Rightarrow> bool" where
  "endsWith s suf = (length suf \<le> length s \<and> drop (length s - length suf) s = suf)"

text \<open>
  \<open>String.prototype.trim\<close> on the ASCII white space and line terminators (tab, line feed,
  vertical tab, form feed, carriage return, space).
\<close>

definition is_space :: "char \<Rightarrow> bool" where
  "is_space c = (c \<in> set [CHR 0x09, CHR 0x0A, CHR 0x0B, CHR 0x0C, CHR 0x0D, CHR 0x20])"

definition trim :: "string \<Rightarrow> string" where
  "trim s = rev (dropWhile is_space (rev (dropWhile is_space s)))"

text \<open>
  \<open>path.join(dir, f)\<close> and \<open>path.resolve(root, a, ...)\<close> for segments that need no
  normalisation (no \<open>.\<close>, \<open>..\<close> or separator inside a segment).
\<close>

definition path_join :: "string \<Rightarrow> string \<Rightarrow> string" where
  "path_join dir f = dir @ ''/'' @ f"

text \<open>One \<open>onProgress(current, total, status)\<close> call made by the worker.\<close>

record progress_call =
  pc_current :: int
  pc_total :: int
  pc_status :: string

text \<open>
  What one \<open>worker.runJob({prompts, outputDir, onProgress})\<close> call does, seen from the
  server: the \<open>onProgress\<close> calls it makes, in order, and then how its promise settles.
\<close>

record worker_call =
  callbacks :: "progress_call list"
  outcome :: "thrown + unit_result list"

text \<open>
  The collaborators one \<open>runJob\<close> activation awaits: the file system (fs-extra) and the
  \<open>ClaudeWorker\<close> instance it creates. Each member is the way the awaited promise
  settles; \<open>promptsDir\<close> and \<open>outputsRoot\<close> are \<open>path.resolve('../prompts')\<close> and
  \<open>path.resolve('../outputs')\<close>.
\<close>

record env =
  promptsDir :: string
  outputsRoot :: string
  readdir :: "string \<Rightarrow> thrown + string list"
  readFile :: "string \<Rightarrow> thrown + string"
  ensureDir :: "string \<Rightarrow> thrown option"
  pathExists :: "string \<Rightarrow> bool"
  worker_init :: "thrown option"
  worker_runJob :: "string list \<Rightarrow> string \<Rightarrow> worker_call"
  worker_cleanup :: "thrown option"

section \<open>runJob as a sequence of synchronous segments\<close>

text \<open>
  \<open>runJob\<close> (lines 72-182) is an async function: it runs synchronously up to the next
  \<open>await\<close>, and other requests and other jobs run while it waits. A phase names the
  promise an activation is waiting for, with the local variables that are live there.
\<close>

datatype phase =
    Start "string list option"
  | AwaitReaddir
  | AwaitReadFile "string list" "string list"
  | AwaitInit "string list"
  | AwaitEnsureDir "string list"
  | InWorkerRun "string list" "progress_call list" "thrown + unit_result list"
  | AwaitCleanup "thrown option"
  | Finished "thrown option"

text \<open>The \<open>catch\<close> block, lines 168-181.\<close>

definition catch_block :: "string \<Rightarrow> thrown \<Rightarrow> world \<Rightarrow> world" where
  "catch_block i e w =
     broadcast (JObject [(''type'', JString ''job_failed''),
                         (''message'', JString (error_message e))])
       (updateJob i [Set_status Failed, Set_error (error_message e),
                     Set_currentTask ''Failed'', Set_completedAt (clock w)] w)"

text \<open>Line 108, then \<open>new ClaudeWorker()\<close> and the call of \<open>worker.init()\<close>.\<close>

definition after_prompts :: "string \<Rightarrow> string list \<Rightarrow> world \<Rightarrow> phase \<times> world" where
  "after_prompts i prompts w =
     (AwaitInit prompts, updateJob i [Set_total (int (length prompts))] w)"

text \<open>The \<open>onProgress\<close> callback, lines 122-135.\<close>

definition onProgress :: "string \<Rightarrow> progress_call \<Rightarrow> world \<Rightarrow> world" where
  "onProgress i c w =
     broadcast (JObject [(''type'', JString ''log''),
                         (''message'', JString (''['' @ show_int (pc_current c) @ ''/'' @
                             show_int (pc_total c) @ ''] '' @ pc_status c)),
                         (''timestamp'', JDate (clock w))])
       (updateJob i [Set_progress (pc_current c), Set_total (pc_total c),
                     Set_currentTask (pc_status c)] w)"

text \<open>The three bytes of the sparkles sign that opens the summary message.\<close>

definition sparkles :: string where
  "sparkles = [CHR 0xE2, CHR 0x9C, CHR 0xA8]"

text \<open>Lines 138-162: the completed update, the summary and the one-hour timer.\<close>

definition on_worker_success ::
    "string \<Rightarrow> string \<Rightarrow> string list \<Rightarrow> unit_result list \<Rightarrow> world \<Rightarrow> world" where
  "on_worker_success i jobOutputDir prompts rs w =
     (let w1 = updateJob i [Set_status Completed, Set_progress (int (length prompts)),
                            Set_currentTask ''Completed successfully'', Set_results rs,
                            Set_completedAt (clock w)] w;
          successful = length (filter success rs);
          w2 = broadcast
                 (JObject [(''type'', JString ''job_completed''),
                           (''message'', JString (sparkles @ '' Job completed: '' @
                               show_nat successful @ ''/'' @ show_nat (length rs) @
                               '' prompts processed successfully'')),
                           (''results'', JResults rs)]) w1
      in w2\<lparr>timers := timers w2 @
               [\<lparr>armed_at = clock w2, delay_ms = 3600000, target_dir = jobOutputDir\<rparr>]\<rparr>)"

text \<open>
  One synchronous segment of \<open>runJob(i, customPrompts)\<close>: from the settling of the promise
  the activation waits for to its next \<open>await\<close>.
\<close>

fun runner_step :: "env \<Rightarrow> string \<Rightarrow> phase \<times> world \<Rightarrow> phase \<times> world" where
  "runner_step e i (Start customPrompts, w) =
     (case jobs w i of
        None \<Rightarrow> (Finished (Some (ErrorObj ''Job not found'')), w)
      | Some j \<Rightarrow>
          (let w1 = updateJob i [Set_status Running, Set_currentTask ''Initializing...''] w
           in case customPrompts of
                Some ps \<Rightarrow>
                  (if length ps > 0
                   then after_prompts i ps
                          (updateJob i [Set_currentTask ''Using custom prompts...''] w1)
                   else (AwaitReaddir,
                         updateJob i [Set_currentTask ''Loading demo prompts...''] w1))
              | None \<Rightarrow>
                  (AwaitReaddir,
                   updateJob i [Set_currentTask ''Loading demo prompts...''] w1)))"
| "runner_step e i (AwaitReaddir, w) =
     (case readdir e (promptsDir e) of
        Inl ex \<Rightarrow> (Finished None, catch_block i ex w)
      | Inr files \<Rightarrow>
          (let promptFiles = map (path_join (promptsDir e))
                                 (filter (\<lambda>f. endsWith f ''.txt'') files)
           in if length promptFiles = 0
              then (Finished None,
                    catch_block i (ErrorObj ''No .txt files found in prompts folder'') w)
              else (AwaitReadFile promptFiles [], w)))"
| "runner_step e i (AwaitReadFile [] prompts, w) = after_prompts i prompts w"
| "runner_step e i (AwaitReadFile (file # rest) prompts, w) =
     (case readFile e file of
        Inl ex \<Rightarrow> (Finished None, catch_block i ex w)
      | Inr content \<Rightarrow>
          (let prompts' = prompts @ [trim content]
           in if rest = [] then after_prompts i prompts' w
              else (AwaitReadFile rest prompts', w)))"
| "runner_step e i (AwaitInit prompts, w) =
     (case worker_init e of
        Some ex \<Rightarrow> (Finished None, catch_block i ex w)
      | None \<Rightarrow> (AwaitEnsureDir prompts, w))"
| "runner_step e i (AwaitEnsureDir prompts, w) =
     (case ensureDir e (path_join (outputsRoot e) i) of
        Some ex \<Rightarrow> (AwaitCleanup (Some ex), w)
      | None \<Rightarrow>
          (let call = worker_runJob e prompts (path_join (outputsRoot e) i)
           in (InWorkerRun prompts (callbacks call) (outcome call), w)))"
| "runner_step e i (InWorkerRun prompts (c # cs) out, w) =
     (InWorkerRun prompts cs out, onProgress i c w)"
| "runner_step e i (InWorkerRun prompts [] out, w) =
     (case out of
        Inl ex \<Rightarrow> (AwaitCleanup (Some ex), w)
      | Inr rs \<Rightarrow>
          (AwaitCleanup None,
           on_worker_success i (path_join (outputsRoot e) i) prompts rs w))"
| "runner_step e i (AwaitCleanup pending, w) =
     (case worker_cleanup e of
        Some ex \<Rightarrow> (Finished None, catch_block i ex w)
      | None \<Rightarrow>
          (case pending of
             Some ex \<Rightarrow> (Finished None, catch_block i ex w)
           | None \<Rightarrow> (Finished None, w)))"
| "runner_step e i (Finished r, w) = (Finished r, w)"

text \<open>The activation after \<open>n\<close> segments, and the job as a reader sees it then.\<close>

definition run_steps :: "env \<Rightarrow> string \<Rightarrow> nat \<Rightarrow> phase \<times> world \<Rightarrow> phase \<times> world" where
  "run_steps e i n = (runner_step e i) ^^ n"

definition snapshot :: "env \<Rightarrow> string \<Rightarrow> string list option \<Rightarrow> world \<Rightarrow> nat \<Rightarrow> job option" where
  "snapshot e i customPrompts w n = jobs (snd (run_steps e i n (Start customPrompts, w))) i"

section \<open>Several jobs at once\<close>

text \<open>
  Every \<open>POST /api/run\<close> starts its own activation of \<open>runJob\<close>, with its own
  \<open>ClaudeWorker\<close>. The event loop runs one synchronous segment of one activation at a
  time, in any order.
\<close>

record runner =
  r_env :: env
  r_id :: string
  r_phase :: phase

definition sys_step :: "nat \<Rightarrow> world \<times> runner list \<Rightarrow> world \<times> runner list" where
  "sys_step k s =
     (let w = fst s; rs = snd s
      in if k < length rs
         then (let r = rs ! k;
                   pw = runner_step (r_env r) (r_id r) (r_phase r, w)
               in (snd pw, rs[k := r\<lparr>r_phase := fst pw\<rparr>]))
         else s)"

definition run_schedule :: "nat list \<Rightarrow> world \<times> runner list \<Rightarrow> world \<times> runner list" where
  "run_schedule ks s = fold sys_step ks s"

text \<open>An activation is inside \<open>worker.runJob\<close> from its call to the settling of its promise.\<close>

fun in_worker :: "phase \<Rightarrow> bool" where
  "in_worker (InWorkerRun prompts cs out) = True"
| "in_worker ph = False"

definition in_flight :: "runner list \<Rightarrow> nat" where
  "in_flight rs = length (filter (\<lambda>r. in_worker (r_phase r)) rs)"

section \<open>HTTP handlers\<close>

datatype http_body = JsonBody jsval | FileBody string

record http_response =
  code :: nat
  headers :: "(string \<times> string) list"
  body :: http_body

text \<open>\<open>res.status(c).json(v)\<close>; \<open>res.json\<close> alone answers 200.\<close>

definition json_response :: "nat \<Rightarrow> jsval \<Rightarrow> http_response" where
  "json_response c v = \<lparr>code = c, headers = [], body = JsonBody (stringify v)\<rparr>"

text \<open>
  \<open>POST /api/run\<close>, lines 233-249. \<open>body_prompts\<close> is \<open>req.body.prompts\<close>. The handler does
  not await \<open>runJob\<close>: the activation runs its first segment and the response is sent.
\<close>

definition post_run ::
    "env \<Rightarrow> string \<Rightarrow> string list option \<Rightarrow> world \<times> runner list
       \<Rightarrow> http_response \<times> world \<times> runner list" where
  "post_run e new_id body_prompts s =
     (let w1 = createJob new_id (fst s);
          pw = runner_step e new_id (Start body_prompts, w1)
      in (json_response 200 (JObject [(''jobId'', JString new_id),
                                      (''status'', JString ''started'')]),
          snd pw,
          snd s @ [\<lparr>r_env = e, r_id = new_id, r_phase = fst pw\<rparr>]))"

text \<open>\<open>GET /api/status/:jobId\<close>, lines 251-270.\<close>

definition get_status :: "string \<Rightarrow> world \<Rightarrow> http_response" where
  "get_status jobId w =
     (case getJob jobId w of
        None \<Rightarrow> json_response 404 (JObject [(''error'', JString ''Job not found'')])
      | Some j \<Rightarrow>
          json_response 200
            (JObject [(''id'', JString (job_id j)),
                      (''status'', JString (status_str (status j))),
                      (''progress'', JNumber (progress j)),
                      (''total'', JNumber (total_job j)),
                      (''currentTask'', JString (currentTask j)),
                      (''createdAt'', JDate (createdAt j)),
                      (''completedAt'', opt_date (completedAt j)),
                      (''error'', opt_string (error j)),
                      (''results'', JResults (results j))]))"

text \<open>One element of \<open>outputs\<close>, the object literal of lines 292-295.\<close>

definition listing_entry :: "string \<Rightarrow> string \<Rightarrow> jsval" where
  "listing_entry jobId f =
     JObject [(''filename'', JString f),
              (''downloadUrl'', JString (''/outputs/'' @ jobId @ ''/'' @ f))]"



text \<open>
  The timer callback, lines 155-162: \<open>fs.remove\<close> inside \<open>try\<close>. The result is the console
  line written and the exception that leaves the callback.
\<close>

definition cleanup_callback ::
    "(string \<Rightarrow> thrown option) \<Rightarrow> string \<Rightarrow> timer \<Rightarrow> string \<times> thrown option" where
  "cleanup_callback remove i t =
     (case remove (target_dir t) of
        None \<Rightarrow> (''Auto-cleaned job '' @ i @ '' outputs'', None)
      | Some ex \<Rightarrow> (''Error cleaning job '' @ i @ '':'', None))"

text \<open>The file names a listing response of \<open>GET /api/outputs/:jobId\<close> carries, in order.\<close>

definition filename_of :: "jsval \<Rightarrow> string option" where
  "filename_of v = (case member v ''filename'' of JString f \<Rightarrow> Some f | _ \<Rightarrow> None)"


section \<open>What holds of a job at each phase of its run\<close>

text \<open>A progress report is in range for a run over \<open>n\<close> prompts.\<close>

definition report_in_range :: "nat \<Rightarrow> progress_call \<Rightarrow> bool" where
  "report_in_range n c = (0 \<le> pc_current c \<and> pc_current c \<le> pc_total c \<and> pc_total c = int n)"

text \<open>
  The relation between the phase of an activation and the fields of its job that the
  proofs below maintain from segment to segment.
\<close>

fun runner_inv :: "phase \<Rightarrow> job \<Rightarrow> bool" where
  "runner_inv (Start customPrompts) j =
     (status j = Pending \<and> progress j = 0 \<and> total_job j = 0 \<and> results j = [])"
| "runner_inv AwaitReaddir j =
     (status j = Running \<and> progress j = 0 \<and> total_job j = 0 \<and> results j = [])"
| "runner_inv (AwaitReadFile files prompts) j =
     (status j = Running \<and> progress j = 0 \<and> total_job j = 0 \<and> results j = [])"
| "runner_inv (AwaitInit prompts) j =
     (status j = Running \<and> progress j = 0 \<and> total_job j = int (length prompts) \<and>
      results j = [])"
| "runner_inv (AwaitEnsureDir prompts) j =
     (status j = Running \<and> progress j = 0 \<and> total_job j = int (length prompts) \<and>
      results j = [])"
| "runner_inv (InWorkerRun prompts cs out) j =
     (list_all (report_in_range (length prompts)) cs \<and>
      status j = Running \<and> 0 \<le> progress j \<and> progress j \<le> total_job j \<and>
      total_job j = int (length prompts) \<and> results j = [])"
| "runner_inv (AwaitCleanup pending) j =
     (0 \<le> progress j \<and> progress j \<le> total_job j \<and>
      (case pending of
         Some ex \<Rightarrow> status j = Running \<and> results j = []
       | None \<Rightarrow> status j = Completed \<and> progress j = total_job j))"
| "runner_inv (Finished r) j =
     (0 \<le> progress j \<and> progress j \<le> total_job j \<and>
      (status j = Completed \<or> status j = Failed) \<and>
      (results j = [] \<or> progress j = total_job j))"

section \<open>Concrete worlds and collaborators\<close>

text \<open>
  A server with one open and one closed client, and collaborators for a run over two
  prompts: a worker that reports each prompt once and returns one result per prompt, and
  variants of it whose calls reject.
\<close>

definition world0 :: world where
  "world0 = \<lparr>jobs = Map.empty,
             clients = [\<lparr>client_id = 1, readyState = OPEN\<rparr>,
                        \<lparr>client_id = 2, readyState = CLOSED\<rparr>],
             sent = [], timers = [], clock = 5\<rparr>"

definition result_for :: "string \<Rightarrow> unit_result" where
  "result_for p = \<lparr>success = True, artifactRef = Some (p @ ''.md''),
                   errorMessage = None, timestamp = 7\<rparr>"

definition reporting_worker :: "string list \<Rightarrow> string \<Rightarrow> worker_call" where
  "reporting_worker ps dir =
     \<lparr>callbacks = map (\<lambda>k. \<lparr>pc_current = int (Suc k), pc_total = int (length ps),
                              pc_status = ''Processed''\<rparr>) [0..<length ps],
      outcome = Inr (map result_for ps)\<rparr>"

definition env_ok :: env where
  "env_ok = \<lparr>promptsDir = ''/app/prompts'', outputsRoot = ''/app/outputs'',
             readdir = (\<lambda>d. if d = ''/app/prompts'' then Inr [''a.txt'', ''notes.md'']
                             else if d = ''/app/outputs/j1'' then Inr [''A.md'', ''debug.log'']
                             else Inl (ErrorObj ''ENOENT'')),
             readFile = (\<lambda>f. if f = ''/app/prompts/a.txt'' then Inr '' Write docs ''
                              else Inl (ErrorObj ''ENOENT'')),
             ensureDir = (\<lambda>d. None),
             pathExists = (\<lambda>p. p \<in> set [''/app/outputs/j1'', ''/app/outputs/j1/A.md'',
                                          ''/app/outputs/j1/debug.log'']),
             worker_init = None,
             worker_runJob = reporting_worker,
             worker_cleanup = None\<rparr>"

text \<open>The same collaborators, but \<open>worker.cleanup()\<close> rejects.\<close>

definition env_cleanup_fails :: env where
  "env_cleanup_fails = env_ok\<lparr>worker_cleanup := Some (ErrorObj ''browser already closed'')\<rparr>"

text \<open>The same collaborators, but \<open>worker.runJob\<close> rejects after one report.\<close>

definition env_run_fails :: env where
  "env_run_fails =
     env_ok\<lparr>worker_runJob := (\<lambda>ps dir.
        \<lparr>callbacks = [\<lparr>pc_current = 1, pc_total = int (length ps),
                       pc_status = ''Processed''\<rparr>],
         outcome = Inl (ErrorObj ''session lost'')\<rparr>)\<rparr>"

text \<open>The same collaborators, but the prompts folder holds no \<open>.txt\<close> file.\<close>

definition env_no_prompts :: env where
  "env_no_prompts = env_ok\<lparr>readdir := (\<lambda>d. Inr [''notes.md''])\<rparr>"

text \<open>
  Two \<open>POST /api/run\<close> requests in a row on the server above, each with one custom
  prompt.
\<close>

definition two_posts :: "world \<times> runner list" where
  "two_posts =
     snd (post_run env_ok ''j2'' (Some [''B''])
            (snd (post_run env_ok ''j1'' (Some [''A'']) (world0, []))))"

section \<open>The registry: updateJob and broadcast\<close>

lemma jobs_broadcast [simp]: "jobs (broadcast d w) = jobs w"
  by (simp add: broadcast_def Let_def)

lemma timers_broadcast [simp]: "timers (broadcast d w) = timers w"
  by (simp add: broadcast_def Let_def)

lemma clients_broadcast [simp]: "clients (broadcast d w) = clients w"
  by (simp add: broadcast_def Let_def)

lemma clock_broadcast [simp]: "clock (broadcast d w) = clock w"
  by (simp add: broadcast_def Let_def)

lemma jobs_updateJob:
  "jobs (updateJob i updates w) =
     (case jobs w i of None \<Rightarrow> jobs w | Some j \<Rightarrow> (jobs w)(i \<mapsto> object_assign j updates))"
  by (simp add: updateJob_def Let_def split: option.splits)

lemma timers_updateJob [simp]: "timers (updateJob i updates w) = timers w"
  by (simp add: updateJob_def Let_def split: option.splits)

lemma clients_updateJob [simp]: "clients (updateJob i updates w) = clients w"
  by (simp add: updateJob_def Let_def split: option.splits)

lemma clock_updateJob [simp]: "clock (updateJob i updates w) = clock w"
  by (simp add: updateJob_def Let_def split: option.splits)

text \<open>
  Claim C8. \<open>updateJob\<close> with an identifier that is not in the job table returns the world
  as it was: no entry is created or changed and nothing is sent to any client; the function
  has no failing branch. With a known identifier the stored job is the old one with every
  member of the update assigned, and no other entry changes.
\<close>

theorem updateJob_unknown_id_is_noop:
  "(jobs w i = None \<longrightarrow> updateJob i updates w = w) \<and>
   (\<forall>j. jobs w i = Some j \<longrightarrow>
        jobs (updateJob i updates w) i = Some (object_assign j updates) \<and>
        (\<forall>k. k \<noteq> i \<longrightarrow> jobs (updateJob i updates w) k = jobs w k))"
  by (simp add: updateJob_def Let_def)

theorem updateJob_unknown_id_is_noop_witness:
  "jobs (createJob ''j1'' world0) ''ghost'' = None \<and>
   updateJob ''ghost'' [Set_status Failed] (createJob ''j1'' world0) = createJob ''j1'' world0 \<and>
   (\<exists>j. jobs (createJob ''j1'' world0) ''j1'' = Some j \<and>
     jobs (updateJob ''j1'' [Set_status Running, Set_total 2] (createJob ''j1'' world0)) ''j1''
       = Some (j\<lparr>status := Running, total_job := 2\<rparr>))"
  using updateJob_unknown_id_is_noop
          [of "createJob ''j1'' world0" "''ghost''" "[Set_status Failed]"]
        updateJob_unknown_id_is_noop
          [of "createJob ''j1'' world0" "''j1''" "[Set_status Running, Set_total 2]"]
  by (simp add: createJob_def world0_def object_assign_def)

lemma sent_updateJob:
  "jobs w i = Some j \<Longrightarrow>
   sent (updateJob i updates w) =
     sent w @ map (\<lambda>c. (client_id c, stringify (job_update_event (object_assign j updates))))
                  (filter (\<lambda>c. readyState c = OPEN) (clients w))"
  by (simp add: updateJob_def broadcast_def Let_def)

lemma sent_payload_keys:
  "keys_of (member (stringify (job_update_event j)) ''job'') =
     [''id'', ''status'', ''progress'', ''total'', ''currentTask''] @
     (if completedAt j = None then [] else [''completedAt'']) @
     (if error j = None then [] else [''error''])"
  by (cases "completedAt j"; cases "error j") (simp_all add: job_update_event_def)

text \<open>
  Claim C4, as stated, at a concrete update: the \<open>job\<close> object of the message sent for the
  first update of a fresh job does not carry all nine members of the job.
\<close>

theorem job_update_payload_counterexample:
  "\<not> set [''id'', ''status'', ''progress'', ''total'', ''currentTask'', ''results'',
           ''createdAt'', ''completedAt'', ''error'']
      \<subseteq> set (keys_of (member (snd (hd (sent (updateJob ''j1'' [Set_status Running]
                                                   (createJob ''j1'' world0))))) ''job''))"
  by (simp add: updateJob_def broadcast_def createJob_def world0_def object_assign_def
        job_update_event_def Let_def)

text \<open>
  Claim C4, amended. \<open>updateJob\<close> on a known identifier hands exactly one message to each
  client whose socket is open, the same \<open>job_update\<close> message for all of them, and sends
  nothing else. The \<open>job\<close> object of that message carries \<open>id\<close>, \<open>status\<close>,
  \<open>progress\<close>, \<open>total\<close> and \<open>currentTask\<close>, then \<open>completedAt\<close> and \<open>error\<close> when
  they are set; it never carries \<open>results\<close> or \<open>createdAt\<close>.
\<close>

theorem updateJob_sends_one_job_update:
  "jobs w i = Some j \<Longrightarrow>
   sent (updateJob i updates w) =
     sent w @ map (\<lambda>c. (client_id c, stringify (job_update_event (object_assign j updates))))
                  (filter (\<lambda>c. readyState c = OPEN) (clients w)) \<and>
   keys_of (member (stringify (job_update_event (object_assign j updates))) ''job'') =
     [''id'', ''status'', ''progress'', ''total'', ''currentTask''] @
     (if completedAt (object_assign j updates) = None then [] else [''completedAt'']) @
     (if error (object_assign j updates) = None then [] else [''error'']) \<and>
   ''results'' \<notin> set (keys_of (member (stringify (job_update_event (object_assign j updates)))
                                      ''job'')) \<and>
   ''createdAt'' \<notin> set (keys_of (member (stringify (job_update_event (object_assign j updates)))
                                        ''job''))"
  by (simp add: sent_updateJob sent_payload_keys)

theorem updateJob_sends_one_job_update_witness:
  "(\<exists>j. jobs (createJob ''j1'' world0) ''j1'' = Some j) \<and>
   sent (updateJob ''j1'' [Set_status Running] (createJob ''j1'' world0)) =
     [(1, JObject [(''type'', JString ''job_update''),
                   (''job'', JObject [(''id'', JString ''j1''), (''status'', JString ''running''),
                                      (''progress'', JNumber 0), (''total'', JNumber 0),
                                      (''currentTask'', JString '''')])])]"
  using updateJob_sends_one_job_update
          [of "createJob ''j1'' world0" "''j1''" "the (jobs (createJob ''j1'' world0) ''j1'')"
              "[Set_status Running]"]
  by (simp add: createJob_def world0_def object_assign_def job_update_event_def)

section \<open>The read paths for artifacts\<close>

lemma endsWith_iff: "endsWith s suf \<longleftrightarrow> (\<exists>p. s = p @ suf)"
proof
  assume "endsWith s suf"
  then have "s = take (length s - length suf) s @ suf"
    by (metis append_take_drop_id endsWith_def)
  then show "\<exists>p. s = p @ suf" ..
next
  assume "\<exists>p. s = p @ suf"
  then show "endsWith s suf" by (auto simp: endsWith_def)
qed

lemma stringify_listing_entry [simp]:
  "stringify (listing_entry jobId f) = listing_entry jobId f"
  by (simp add: listing_entry_def)

lemma listing_entry_defined [simp]: "listing_entry jobId f \<noteq> JUndefined"
  by (simp add: listing_entry_def)

lemma filename_of_listing_entry [simp]: "filename_of (listing_entry jobId f) = Some f"
  by (simp add: listing_entry_def filename_of_def)

lemma stringify_listing_comp [simp]:
  "(\<lambda>v. if v = JUndefined then JNull else stringify v) \<circ> listing_entry jobId
     = listing_entry jobId"
  by (simp add: fun_eq_iff)

lemma map_filter_listing [simp]:
  "List.map_filter filename_of (map (listing_entry jobId) fs) = fs"
  by (induction fs) simp_all






section \<open>Running one job\<close>

lemma run_steps_0 [simp]: "run_steps e i 0 x = x"
  by (simp add: run_steps_def)

lemma run_steps_Suc: "run_steps e i (Suc n) x = run_steps e i n (runner_step e i x)"
  by (simp add: run_steps_def funpow_swap1)

lemma run_steps_add: "run_steps e i (m + n) x = run_steps e i n (run_steps e i m x)"
  by (induction m arbitrary: x) (simp_all add: run_steps_Suc)

lemma run_steps_Finished [simp]: "run_steps e i n (Finished r, w) = (Finished r, w)"
  by (induction n) (simp_all add: run_steps_Suc)

lemma jobs_createJob [simp]:
  "jobs (createJob i w) i =
     Some \<lparr>job_id = i, status = Pending, progress = 0, total_job = 0, currentTask = '''',
           results = [], createdAt = clock w, completedAt = None, error = None\<rparr>"
  by (simp add: createJob_def)

lemma jobs_catch_block:
  "jobs (catch_block i ex w) =
     (case jobs w i of None \<Rightarrow> jobs w
      | Some j \<Rightarrow> (jobs w)(i \<mapsto> j\<lparr>status := Failed, error := Some (error_message ex),
                                      currentTask := ''Failed'', completedAt := Some (clock w)\<rparr>))"
  by (simp add: catch_block_def jobs_updateJob object_assign_def split: option.splits)

lemma start_default:
  assumes "customPrompts = None \<or> customPrompts = Some []"
  shows "runner_step e i (Start customPrompts, createJob i w) =
           (AwaitReaddir,
            updateJob i [Set_currentTask ''Loading demo prompts...'']
              (updateJob i [Set_status Running, Set_currentTask ''Initializing...'']
                 (createJob i w)))"
  using assms by (auto simp: Let_def)

lemma two_steps_no_prompts:
  assumes "customPrompts = None \<or> customPrompts = Some []"
      and "readdir e (promptsDir e) = Inr files"
      and "filter (\<lambda>f. endsWith f ''.txt'') files = []"
  shows "run_steps e i 2 (Start customPrompts, createJob i w) =
           (Finished None,
            catch_block i (ErrorObj ''No .txt files found in prompts folder'')
              (updateJob i [Set_currentTask ''Loading demo prompts...'']
                (updateJob i [Set_status Running, Set_currentTask ''Initializing...'']
                   (createJob i w))))"
  using assms
  by (simp add: numeral_2_eq_2 run_steps_Suc start_default del: runner_step.simps(1))

text \<open>
  Claim C6. A run started without custom prompts (none given, or an empty list) whose
  prompts folder holds no \<open>.txt\<close> file ends after its second segment: from then on the
  activation is finished and the job is \<open>failed\<close> with a non-empty \<open>error\<close>, \<open>total\<close>
  and \<open>progress\<close> still 0 and \<open>results\<close> still empty. At no point is the activation
  inside \<open>worker.runJob\<close>.
\<close>

theorem empty_default_source_fails_job:
  assumes "customPrompts = None \<or> customPrompts = Some []"
      and "readdir e (promptsDir e) = Inr files"
      and "filter (\<lambda>f. endsWith f ''.txt'') files = []"
  shows "(\<forall>n\<ge>2. fst (run_steps e i n (Start customPrompts, createJob i w)) = Finished None \<and>
            (\<exists>j msg. snapshot e i customPrompts (createJob i w) n = Some j \<and>
                 status j = Failed \<and> error j = Some msg \<and> msg \<noteq> [] \<and>
                 total_job j = 0 \<and> results j = [] \<and> progress j = 0 \<and>
                 completedAt j \<noteq> None)) \<and>
         (\<forall>n. \<not> in_worker (fst (run_steps e i n (Start customPrompts, createJob i w))))"
proof -
  let ?s = "(Start customPrompts, createJob i w)"
  have s1: "run_steps e i (Suc 0) ?s = (AwaitReaddir,
            updateJob i [Set_currentTask ''Loading demo prompts...'']
              (updateJob i [Set_status Running, Set_currentTask ''Initializing...'']
                 (createJob i w)))"
    using assms(1) by (simp add: run_steps_Suc start_default del: runner_step.simps(1))
  note s2 = two_steps_no_prompts [OF assms, of i w]
  have late: "run_steps e i n ?s = run_steps e i 2 ?s" if "2 \<le> n" for n
  proof -
    from that obtain k where n: "n = 2 + k" by (metis le_Suc_ex)
    have "run_steps e i (2 + k) ?s = run_steps e i k (run_steps e i 2 ?s)"
      by (rule run_steps_add)
    also have "\<dots> = run_steps e i 2 ?s"
      unfolding s2 by (rule run_steps_Finished)
    finally show ?thesis unfolding n .
  qed
  have a: "fst (run_steps e i n ?s) = Finished None \<and>
            (\<exists>j msg. snapshot e i customPrompts (createJob i w) n = Some j \<and>
                 status j = Failed \<and> error j = Some msg \<and> msg \<noteq> [] \<and>
                 total_job j = 0 \<and> results j = [] \<and> progress j = 0 \<and>
                 completedAt j \<noteq> None)" if "2 \<le> n" for n
    using late [OF that]
    by (simp add: snapshot_def s2 jobs_catch_block jobs_updateJob object_assign_def)
  have b: "\<not> in_worker (fst (run_steps e i n ?s))" for n
  proof -
    consider "n = 0" | "n = Suc 0" | "2 \<le> n" by linarith
    then show ?thesis
    proof cases
      case 1 then show ?thesis by simp
    next
      case 2 then show ?thesis by (simp add: s1)
    next
      case 3 then show ?thesis by (simp add: late s2)
    qed
  qed
  from a b show ?thesis by blast
qed

theorem empty_default_source_fails_job_witness:
  "fst (run_steps env_no_prompts ''j1'' 2 (Start None, createJob ''j1'' world0)) = Finished None \<and>
   (\<exists>j. snapshot env_no_prompts ''j1'' None (createJob ''j1'' world0) 2 = Some j \<and>
        status j = Failed \<and> error j = Some ''No .txt files found in prompts folder'' \<and>
        total_job j = 0 \<and> results j = [])"
  using empty_default_source_fails_job [of None env_no_prompts "[''notes.md'']" "''j1''" world0]
  apply (simp add: env_no_prompts_def env_ok_def endsWith_def)
  apply (simp add: snapshot_def numeral_2_eq_2 run_steps_Suc jobs_catch_block jobs_updateJob
           object_assign_def Let_def endsWith_def)
  done

lemma fst_after_prompts [simp]: "fst (after_prompts i ps w) = AwaitInit ps"
  by (simp add: after_prompts_def)







section \<open>Progress and results during a run\<close>

lemma jobs_onProgress:
  "jobs (onProgress i c w) =
     (case jobs w i of None \<Rightarrow> jobs w
      | Some j \<Rightarrow> (jobs w)(i \<mapsto> j\<lparr>progress := pc_current c, total_job := pc_total c,
                                      currentTask := pc_status c\<rparr>))"
  by (simp add: onProgress_def jobs_updateJob object_assign_def split: option.splits)

lemma jobs_on_worker_success:
  "jobs (on_worker_success i dir prompts rs w) =
     (case jobs w i of None \<Rightarrow> jobs w
      | Some j \<Rightarrow> (jobs w)(i \<mapsto> j\<lparr>status := Completed, progress := int (length prompts),
                                      currentTask := ''Completed successfully'', results := rs,
                                      completedAt := Some (clock w)\<rparr>))"
  by (simp add: on_worker_success_def Let_def jobs_updateJob object_assign_def
           split: option.splits)

lemma jobs_after_prompts:
  "jobs (snd (after_prompts i ps w)) =
     (case jobs w i of None \<Rightarrow> jobs w
      | Some j \<Rightarrow> (jobs w)(i \<mapsto> j\<lparr>total_job := int (length ps)\<rparr>))"
  by (simp add: after_prompts_def jobs_updateJob object_assign_def split: option.splits)

lemma runner_step_preserves_inv:
  assumes reports: "\<And>ps dir. list_all (report_in_range (length ps))
                                  (callbacks (worker_runJob e ps dir))"
      and job: "jobs w i = Some j"
      and inv: "runner_inv ph j"
  shows "\<exists>j'. jobs (snd (runner_step e i (ph, w))) i = Some j' \<and>
              runner_inv (fst (runner_step e i (ph, w))) j'"
proof (cases ph)
  case (Start cp)
  with job inv show ?thesis
    by (cases cp)
       (auto simp: Let_def jobs_updateJob jobs_after_prompts object_assign_def)
next
  case AwaitReaddir
  with job inv show ?thesis
    by (auto simp: Let_def jobs_catch_block split: sum.splits)
next
  case (AwaitReadFile fs acc)
  with job inv show ?thesis
    by (cases fs)
       (auto simp: Let_def jobs_catch_block jobs_after_prompts split: sum.splits)
next
  case (AwaitInit ps)
  with job inv show ?thesis
    by (auto simp: jobs_catch_block split: option.splits)
next
  case (AwaitEnsureDir ps)
  with job inv reports [of ps "path_join (outputsRoot e) i"] show ?thesis
    by (auto simp: Let_def split: option.splits)
next
  case (InWorkerRun ps cs out)
  with job inv show ?thesis
    by (cases cs)
       (auto simp: jobs_onProgress jobs_on_worker_success report_in_range_def
             split: sum.splits)
next
  case (AwaitCleanup pending)
  with job inv show ?thesis
    by (auto simp: jobs_catch_block split: option.splits)
next
  case (Finished r)
  with job inv show ?thesis by simp
qed

lemma run_steps_inv:
  assumes reports: "\<And>ps dir. list_all (report_in_range (length ps))
                                  (callbacks (worker_runJob e ps dir))"
      and job: "jobs w i = Some j"
      and inv: "runner_inv ph j"
  shows "\<exists>j'. jobs (snd (run_steps e i n (ph, w))) i = Some j' \<and>
              runner_inv (fst (run_steps e i n (ph, w))) j'"
  using job inv
proof (induction n arbitrary: ph w j)
  case 0
  then show ?case by simp
next
  case (Suc n)
  from runner_step_preserves_inv [OF reports Suc.prems]
  obtain j' where "jobs (snd (runner_step e i (ph, w))) i = Some j'"
    and "runner_inv (fst (runner_step e i (ph, w))) j'" by blast
  from Suc.IH [OF this] show ?case
    by (simp add: run_steps_Suc)
qed

lemma runner_inv_bounds:
  "runner_inv ph j \<Longrightarrow>
     0 \<le> progress j \<and> progress j \<le> total_job j \<and>
     (status j = Pending \<or> status j = Running \<longrightarrow> results j = []) \<and>
     (results j \<noteq> [] \<longrightarrow> progress j = total_job j)"
  by (cases ph) (auto split: option.splits)

lemma run_steps_numeral:
  "run_steps e i (numeral k) x = run_steps e i (pred_numeral k) (runner_step e i x)"
  by (simp add: numeral_eq_Suc run_steps_Suc)

lemma timers_catch_block [simp]: "timers (catch_block i ex w) = timers w"
  by (simp add: catch_block_def)

lemma timers_onProgress [simp]: "timers (onProgress i c w) = timers w"
  by (simp add: onProgress_def)

lemma clock_onProgress [simp]: "clock (onProgress i c w) = clock w"
  by (simp add: onProgress_def)

lemma timers_on_worker_success:
  "timers (on_worker_success i dir prompts rs w) =
     timers w @ [\<lparr>armed_at = clock w, delay_ms = 3600000, target_dir = dir\<rparr>]"
  by (simp add: on_worker_success_def Let_def)

lemmas eval_run = run_steps_numeral run_steps_Suc after_prompts_def Let_def path_join_def

lemmas eval_jobs = jobs_updateJob jobs_onProgress jobs_on_worker_success jobs_catch_block
  object_assign_def

text \<open>
  Claim C2, as stated, at a concrete snapshot: a job over the prompts A and B, after the
  worker has reported the first prompt. The job shows \<open>progress = 1\<close> while \<open>results\<close>
  is still empty.
\<close>

theorem results_length_counterexample:
  "snapshot env_ok ''j1'' (Some [''A'', ''B'']) (createJob ''j1'' world0) 4 \<noteq> None \<and>
   progress (the (snapshot env_ok ''j1'' (Some [''A'', ''B'']) (createJob ''j1'' world0) 4)) = 1 \<and>
   results (the (snapshot env_ok ''j1'' (Some [''A'', ''B'']) (createJob ''j1'' world0) 4)) = [] \<and>
   int (length (results (the (snapshot env_ok ''j1'' (Some [''A'', ''B''])
                                (createJob ''j1'' world0) 4))))
     \<noteq> progress (the (snapshot env_ok ''j1'' (Some [''A'', ''B''])
                         (createJob ''j1'' world0) 4))"
  by (simp add: snapshot_def eval_run eval_jobs env_ok_def reporting_worker_def upt_rec)

text \<open>
  Claim C2, amended. Let every \<open>onProgress\<close> report of the worker satisfy
  \<open>0 \<le> current \<le> total\<close> with \<open>total\<close> the number of prompts. Then at every snapshot of a
  job from its creation on, \<open>0 \<le> progress \<le> total\<close>. The server does not extend
  \<open>results\<close> unit by unit: \<open>results\<close> is empty at every snapshot in which the job is
  pending or running, and whenever it is not empty \<open>progress = total\<close>. It is assigned
  once, by the completed update, which stores the list \<open>worker.runJob\<close> returned together
  with \<open>progress\<close> = number of prompts.
\<close>

theorem progress_bounds_results_at_completion:
  assumes "\<forall>ps dir. list_all (report_in_range (length ps)) (callbacks (worker_runJob e ps dir))"
  shows "(\<forall>n. \<exists>j. snapshot e i customPrompts (createJob i w) n = Some j \<and>
              0 \<le> progress j \<and> progress j \<le> total_job j \<and>
              (status j = Pending \<or> status j = Running \<longrightarrow> results j = []) \<and>
              (results j \<noteq> [] \<longrightarrow> progress j = total_job j)) \<and>
         (\<forall>(w'::world) j'. jobs w' i = Some j' \<longrightarrow>
              jobs (on_worker_success i dir prompts rs w') i =
                Some (j'\<lparr>status := Completed, progress := int (length prompts),
                         currentTask := ''Completed successfully'', results := rs,
                         completedAt := Some (clock w')\<rparr>))"
proof (intro conjI allI impI)
  fix n
  have "runner_inv (Start customPrompts)
          \<lparr>job_id = i, status = Pending, progress = 0, total_job = 0, currentTask = '''',
           results = [], createdAt = clock w, completedAt = None, error = None\<rparr>"
    by simp
  with run_steps_inv [of e "createJob i w" i _ "Start customPrompts" n] assms
  obtain j where j: "jobs (snd (run_steps e i n (Start customPrompts, createJob i w))) i = Some j"
    and inv: "runner_inv (fst (run_steps e i n (Start customPrompts, createJob i w))) j"
    by auto
  from runner_inv_bounds [OF inv] j
  show "\<exists>j. snapshot e i customPrompts (createJob i w) n = Some j \<and>
              0 \<le> progress j \<and> progress j \<le> total_job j \<and>
              (status j = Pending \<or> status j = Running \<longrightarrow> results j = []) \<and>
              (results j \<noteq> [] \<longrightarrow> progress j = total_job j)"
    by (auto simp: snapshot_def)
next
  fix w' :: world and j'
  assume "jobs w' i = Some j'"
  then show "jobs (on_worker_success i dir prompts rs w') i =
                Some (j'\<lparr>status := Completed, progress := int (length prompts),
                         currentTask := ''Completed successfully'', results := rs,
                         completedAt := Some (clock w')\<rparr>)"
    by (simp add: jobs_on_worker_success)
qed

lemma reporting_worker_in_range:
  "list_all (report_in_range (length ps)) (callbacks (reporting_worker ps dir))"
  by (simp add: reporting_worker_def list_all_iff report_in_range_def)

theorem progress_bounds_results_at_completion_witness:
  "(\<forall>ps dir. list_all (report_in_range (length ps)) (callbacks (worker_runJob env_ok ps dir))) \<and>
   (\<exists>j. snapshot env_ok ''j1'' (Some [''A'', ''B'']) (createJob ''j1'' world0) 5 = Some j \<and>
        progress j = 2 \<and> total_job j = 2 \<and> status j = Running \<and> results j = [])"
  using progress_bounds_results_at_completion
          [of env_ok "''j1''" "Some [''A'', ''B'']" world0 "''/app/outputs/j1''" "[''A'', ''B'']" "[]"]
  by (simp add: reporting_worker_in_range env_ok_def)
     (simp add: snapshot_def eval_run eval_jobs env_ok_def reporting_worker_def upt_rec)

section \<open>Terminal states\<close>

lemma terminal_phase:
  "runner_inv ph j \<Longrightarrow> status j = Completed \<or> status j = Failed \<Longrightarrow>
     ph = AwaitCleanup None \<or> (\<exists>r. ph = Finished r)"
  by (cases ph) (auto split: option.splits)

text \<open>
  When \<open>worker.cleanup()\<close> resolves, a job that shows \<open>completed\<close> or \<open>failed\<close> shows
  the same fields at every later snapshot.
\<close>

lemma terminal_state_absorbing_when_cleanup_succeeds:
  assumes reports: "\<forall>ps dir. list_all (report_in_range (length ps))
                                  (callbacks (worker_runJob e ps dir))"
      and cleanup: "worker_cleanup e = None"
      and snap: "snapshot e i customPrompts (createJob i w) n = Some j"
      and terminal: "status j = Completed \<or> status j = Failed"
  shows "snapshot e i customPrompts (createJob i w) (n + k) = Some j"
proof -
  let ?s = "run_steps e i n (Start customPrompts, createJob i w)"
  have "runner_inv (Start customPrompts)
          \<lparr>job_id = i, status = Pending, progress = 0, total_job = 0, currentTask = '''',
           results = [], createdAt = clock w, completedAt = None, error = None\<rparr>"
    by simp
  with run_steps_inv [of e "createJob i w" i _ "Start customPrompts" n] reports
  obtain j' where "jobs (snd ?s) i = Some j'" and "runner_inv (fst ?s) j'"
    by auto
  with snap have inv: "runner_inv (fst ?s) j" by (simp add: snapshot_def)
  from terminal_phase [OF inv terminal]
  have "run_steps e i k ?s = ?s \<or> run_steps e i k ?s = (Finished None, snd ?s)"
  proof
    assume ph: "fst ?s = AwaitCleanup None"
    then have s: "?s = (AwaitCleanup None, snd ?s)" by (metis prod.collapse)
    show ?thesis
    proof (cases k)
      case 0 then show ?thesis by simp
    next
      case (Suc k')
      have "run_steps e i (Suc k') ?s = run_steps e i k' (runner_step e i (AwaitCleanup None, snd ?s))"
        using s by (metis run_steps_Suc)
      then show ?thesis using cleanup Suc by simp
    qed
  next
    assume "\<exists>r. fst ?s = Finished r"
    then obtain r where "?s = (Finished r, snd ?s)" by (metis prod.collapse)
    then have "run_steps e i k ?s = ?s" by (metis run_steps_Finished)
    then show ?thesis by simp
  qed
  then have "snd (run_steps e i k ?s) = snd ?s" by auto
  with snap show ?thesis by (simp add: snapshot_def run_steps_add)
qed

text \<open>
  Claim C3 at a concrete run: prompts A and B, a worker that processes both, and a
  \<open>worker.cleanup()\<close> that rejects. After the sixth segment the job is \<open>completed\<close>
  with no error; the \<open>finally\<close> block then awaits \<open>cleanup\<close>, its rejection reaches the
  outer \<open>catch\<close>, and after the seventh segment the same job is \<open>failed\<close>, with
  \<open>error\<close> and \<open>currentTask\<close> rewritten.
\<close>

theorem completed_job_becomes_failed:
  "status (the (snapshot env_cleanup_fails ''j1'' (Some [''A'', ''B''])
                  (createJob ''j1'' world0) 6)) = Completed \<and>
   error (the (snapshot env_cleanup_fails ''j1'' (Some [''A'', ''B''])
                  (createJob ''j1'' world0) 6)) = None \<and>
   status (the (snapshot env_cleanup_fails ''j1'' (Some [''A'', ''B''])
                  (createJob ''j1'' world0) 7)) = Failed \<and>
   error (the (snapshot env_cleanup_fails ''j1'' (Some [''A'', ''B''])
                  (createJob ''j1'' world0) 7)) = Some ''browser already closed'' \<and>
   currentTask (the (snapshot env_cleanup_fails ''j1'' (Some [''A'', ''B''])
                  (createJob ''j1'' world0) 7)) = ''Failed''"
  by (simp add: snapshot_def eval_run eval_jobs env_cleanup_fails_def env_ok_def
        reporting_worker_def upt_rec)

section \<open>Retention of the output directory\<close>

text \<open>
  The timer callback lets no exception escape, whether \<open>fs.remove\<close> succeeds or throws:
  a directory that is missing when the timer fires raises nothing.
\<close>

lemma cleanup_callback_never_throws: "snd (cleanup_callback remove i t) = None"
  by (simp add: cleanup_callback_def split: option.splits)

text \<open>Only the completed update arms a timer; the \<open>catch\<close> block arms none.\<close>

lemma catch_block_arms_nothing:
  "timers (catch_block i ex w) = timers w \<and>
   timers (on_worker_success i dir prompts rs w) =
     timers w @ [\<lparr>armed_at = clock w, delay_ms = 3600000, target_dir = dir\<rparr>]"
  by (simp add: timers_on_worker_success)

text \<open>
  Claim C5 at a concrete run: prompts A and B, the output directory is created, and
  \<open>worker.runJob\<close> rejects. The job ends \<open>failed\<close> and no timer has been armed, so the
  directory is never removed. The same request with a worker that succeeds arms one timer
  of 3600000 ms for the directory.
\<close>

theorem failed_job_arms_no_cleanup:
  "ensureDir env_run_fails ''/app/outputs/j1'' = None \<and>
   fst (run_steps env_run_fails ''j1'' 6 (Start (Some [''A'', ''B'']), createJob ''j1'' world0))
     = Finished None \<and>
   status (the (snapshot env_run_fails ''j1'' (Some [''A'', ''B'']) (createJob ''j1'' world0) 6))
     = Failed \<and>
   timers (snd (run_steps env_run_fails ''j1'' 6
                  (Start (Some [''A'', ''B'']), createJob ''j1'' world0))) = [] \<and>
   timers (snd (run_steps env_ok ''j1'' 7
                  (Start (Some [''A'', ''B'']), createJob ''j1'' world0))) =
     [\<lparr>armed_at = 5, delay_ms = 3600000, target_dir = ''/app/outputs/j1''\<rparr>]"
proof -
  have w0: "timers (createJob ''j1'' world0) = []" "clock (createJob ''j1'' world0) = 5"
    by (simp_all add: createJob_def world0_def)
  have a: "ensureDir env_run_fails ''/app/outputs/j1'' = None"
    by (simp add: env_run_fails_def env_ok_def)
  have b: "run_steps env_run_fails ''j1'' 6
             (Start (Some [''A'', ''B'']), createJob ''j1'' world0) =
           (Finished None,
            catch_block ''j1'' (ErrorObj ''session lost'')
              (onProgress ''j1'' \<lparr>pc_current = 1, pc_total = 2, pc_status = ''Processed''\<rparr>
                (updateJob ''j1'' [Set_total 2]
                  (updateJob ''j1'' [Set_currentTask ''Using custom prompts...'']
                    (updateJob ''j1'' [Set_status Running, Set_currentTask ''Initializing...'']
                      (createJob ''j1'' world0))))))"
    by (simp add: eval_run env_run_fails_def env_ok_def)
  have c: "status (the (snapshot env_run_fails ''j1'' (Some [''A'', ''B''])
                          (createJob ''j1'' world0) 6)) = Failed"
    unfolding snapshot_def b
    by (simp add: jobs_catch_block jobs_onProgress jobs_updateJob object_assign_def)
  have d: "timers (snd (run_steps env_ok ''j1'' 7
                  (Start (Some [''A'', ''B'']), createJob ''j1'' world0))) =
     [\<lparr>armed_at = 5, delay_ms = 3600000, target_dir = ''/app/outputs/j1''\<rparr>]"
    by (simp add: eval_run env_ok_def reporting_worker_def upt_rec timers_on_worker_success w0)
  from a b c d w0 show ?thesis by simp
qed

section \<open>Several jobs: no admission gate\<close>

lemma in_flight_update:
  assumes "k < length rs"
  shows "in_flight (rs[k := r]) + (if in_worker (r_phase (rs ! k)) then 1 else 0) =
         in_flight rs + (if in_worker (r_phase r) then 1 else 0)"
proof -
  have a: "rs[k := r] = take k rs @ r # drop (Suc k) rs"
    using assms by (rule upd_conv_take_nth_drop)
  have b: "rs = take k rs @ rs ! k # drop (Suc k) rs"
    using assms by (rule id_take_nth_drop)
  have "in_flight (take k rs @ r # drop (Suc k) rs) +
          (if in_worker (r_phase (rs ! k)) then 1 else 0) =
        in_flight (take k rs @ rs ! k # drop (Suc k) rs) +
          (if in_worker (r_phase r) then 1 else 0)"
    by (simp add: in_flight_def)
  with a b show ?thesis by simp
qed

lemma in_flight_le: "in_flight rs \<le> length rs"
  by (simp add: in_flight_def)

text \<open>
  Claim C1, amended. There is no admission gate in front of the worker: an activation
  whose \<open>ensureDir\<close> has resolved enters \<open>worker.runJob\<close> in its next segment whatever
  the other activations are doing, so the number of calls in flight grows by one, from any
  value. Each activation has at most one call in flight, so the number of calls in flight
  is bounded by the number of jobs started, not by one.
\<close>

theorem worker_entry_is_unguarded:
  assumes "k < length rs"
      and "r_phase (rs ! k) = AwaitEnsureDir prompts"
      and "ensureDir (r_env (rs ! k)) (path_join (outputsRoot (r_env (rs ! k))) (r_id (rs ! k)))
             = None"
  shows "in_flight (snd (sys_step k (w, rs))) = in_flight rs + 1 \<and>
         in_flight (snd (sys_step k (w, rs))) \<le> length rs"
proof -
  let ?r = "rs ! k"
  let ?pw = "runner_step (r_env ?r) (r_id ?r) (r_phase ?r, w)"
  have ph: "in_worker (fst ?pw)"
    using assms(2,3) by (simp add: Let_def)
  have old: "\<not> in_worker (r_phase ?r)"
    using assms(2) by simp
  have s: "snd (sys_step k (w, rs)) = rs[k := ?r\<lparr>r_phase := fst ?pw\<rparr>]"
    using assms(1) by (simp add: sys_step_def Let_def)
  from in_flight_update [OF assms(1), of "?r\<lparr>r_phase := fst ?pw\<rparr>"] ph old
  have "in_flight (rs[k := ?r\<lparr>r_phase := fst ?pw\<rparr>]) = in_flight rs + 1"
    by simp
  moreover have "in_flight (rs[k := ?r\<lparr>r_phase := fst ?pw\<rparr>]) \<le> length rs"
    using in_flight_le [of "rs[k := ?r\<lparr>r_phase := fst ?pw\<rparr>]"] by simp
  ultimately show ?thesis by (simp only: s)
qed


lemma env_ok_simps:
  "worker_init env_ok = None" "ensureDir env_ok d = None"
  "worker_runJob env_ok = reporting_worker" "outputsRoot env_ok = ''/app/outputs''"
  "worker_cleanup env_ok = None"
  by (simp_all add: env_ok_def)

lemma two_posts_runners:
  "snd two_posts = [\<lparr>r_env = env_ok, r_id = ''j1'', r_phase = AwaitInit [''A'']\<rparr>,
                    \<lparr>r_env = env_ok, r_id = ''j2'', r_phase = AwaitInit [''B'']\<rparr>]"
  by (simp add: two_posts_def post_run_def Let_def after_prompts_def)

lemma two_posts_split: "two_posts = (fst two_posts, snd two_posts)"
  by simp

lemma schedule_010:
  "snd (run_schedule [0, 1, 0] two_posts) =
     [\<lparr>r_env = env_ok, r_id = ''j1'',
       r_phase = InWorkerRun [''A''] (callbacks (reporting_worker [''A''] ''/app/outputs/j1''))
                             (outcome (reporting_worker [''A''] ''/app/outputs/j1''))\<rparr>,
      \<lparr>r_env = env_ok, r_id = ''j2'', r_phase = AwaitEnsureDir [''B'']\<rparr>]"
  by (subst two_posts_split, unfold two_posts_runners)
     (simp add: run_schedule_def sys_step_def Let_def env_ok_simps path_join_def)

text \<open>
  Claim C1, as stated, at a concrete schedule: two jobs are posted, then the event loop
  runs the segments of the two activations in turn. Both activations are inside
  \<open>worker.runJob\<close> at the same time.
\<close>

theorem two_jobs_in_worker_counterexample:
  "\<not> in_flight (snd (run_schedule [0, 1, 0, 1] two_posts)) \<le> 1"
  by (subst two_posts_split, unfold two_posts_runners)
     (simp add: run_schedule_def sys_step_def Let_def env_ok_simps path_join_def in_flight_def)

theorem worker_entry_is_unguarded_witness:
  "in_flight (snd (run_schedule [0, 1, 0] two_posts)) = 1 \<and>
   in_flight (snd (sys_step 1 (fst (run_schedule [0, 1, 0] two_posts),
                               snd (run_schedule [0, 1, 0] two_posts)))) = 2"
  using worker_entry_is_unguarded
          [of 1 "snd (run_schedule [0, 1, 0] two_posts)" "[''B'']"
              "fst (run_schedule [0, 1, 0] two_posts)"]
  unfolding schedule_010
  by (simp add: env_ok_simps in_flight_def sys_step_def Let_def path_join_def)

end
